theory Spec2Isabelle
  imports Main
begin

section \<open>Python string helpers used by the sources\<close>

text \<open>
  Strings are byte strings (the sources are Python 2: \<^verbatim>\<open>DictReader.next\<close>), modelled
  as \<^typ>\<open>string\<close>.  \<^verbatim>\<open>sep.join(xs)\<close> puts the separator between the elements and
  escapes nothing.
\<close>

fun str_join :: "string \<Rightarrow> string list \<Rightarrow> string" where
  "str_join sep [] = []"
| "str_join sep [x] = x"
| "str_join sep (x # y # ys) = x @ sep @ str_join sep (y # ys)"

section \<open>base\_file.py: the facet namer\<close>

text \<open>
  \<^verbatim>\<open>class AmfFile\<close>: the class attribute \<^verbatim>\<open>facet_separator = "_"\<close>, the constructor
  that stores \<^verbatim>\<open>facets\<close> and \<^verbatim>\<open>namespace\<close>, and \<^verbatim>\<open>get_filename\<close>.
\<close>

definition facet_separator :: string where
  "facet_separator = ''_''"

record AmfFile =
  facets :: "string list"
  namespace :: string

definition new_AmfFile :: "string list \<Rightarrow> AmfFile" where
  "new_AmfFile fs = \<lparr> facets = fs, namespace = str_join facet_separator fs \<rparr>"

definition get_filename :: "AmfFile \<Rightarrow> string \<Rightarrow> string" where
  "get_filename self ext = ''AMF'' @ facet_separator @ namespace self @ ''.'' @ ext"

section \<open>Python library functions the handler calls\<close>

text \<open>
  \<^verbatim>\<open>str.lower\<close> on bytes, \<^verbatim>\<open>str.strip()\<close> (which removes the characters of
  \<^verbatim>\<open>string.whitespace\<close>: tab, newline, vertical tab, form feed, carriage return and
  space), the decimal rendering of a count by \<^verbatim>\<open>"{}".format\<close>, and
  \<^verbatim>\<open>posixpath.join\<close>: a component that starts with a slash replaces what came
  before, otherwise one slash separates the parts unless the left part is empty or
  already ends in a slash.
\<close>

definition str_lower :: "string \<Rightarrow> string" where
  "str_lower s = map (\<lambda>c. let n = (of_char c :: nat) in
                        if 65 \<le> n \<and> n \<le> 90 then char_of (n + 32) else c) s"

definition is_space :: "char \<Rightarrow> bool" where
  "is_space c = (let n = (of_char c :: nat) in (9 \<le> n \<and> n \<le> 13) \<or> n = 32)"

definition str_strip :: "string \<Rightarrow> string" where
  "str_strip s = rev (dropWhile is_space (rev (dropWhile is_space s)))"

fun str_of_nat :: "nat \<Rightarrow> string" where
  "str_of_nat n = (if n < 10 then [char_of (48 + n)]
                   else str_of_nat (n div 10) @ [char_of (48 + n mod 10)])"

declare str_of_nat.simps [simp del]

definition os_path_join :: "string \<Rightarrow> string \<Rightarrow> string" where
  "os_path_join a b =
     (if b \<noteq> [] \<and> hd b = CHR ''/'' then b
      else if a = [] \<or> last a = CHR ''/'' then a @ b
      else a @ ''/'' @ b)"

definition quote :: string where
  "quote = [CHR 0x27]"

section \<open>Classes, exceptions and the objects the handler builds\<close>

text \<open>
  A Python class is its name and its direct base classes (\<^verbatim>\<open>__bases__\<close>); the base
  classes are classes again, so inheritance through an intermediate class is visible.
  The CV classes and \<^verbatim>\<open>YamlCheck\<close> live in modules of the package that the handler
  imports (\<^verbatim>\<open>amf_check_writer.cvs\<close>, \<^verbatim>\<open>amf_check_writer.yaml_check\<close>); they are
  parameters of the model.
\<close>

datatype pyclass = PyClass (cls_name: string) (cls_bases: "pyclass list")


text \<open>
  The exceptions the handler distinguishes: the two it catches while loading, and
  everything else (\<^verbatim>\<open>IOError\<close> from \<^verbatim>\<open>open\<close>, \<^verbatim>\<open>KeyError\<close>,
  \<^verbatim>\<open>AttributeError\<close>, ...), each with its message.
\<close>

datatype exn =
    DimensionsSheetNoRowsError string
  | CVParseError string
  | KeyError string
  | IOError string
  | AttributeError string
  | StopIteration
  | OtherException string

text \<open>
  The objects that end up in the output lists.  A CV instance keeps the class that was
  instantiated, its facets and the parsed \<^verbatim>\<open>cv_dict\<close>; the three global checks and
  the wrapper check are the classes of \<^verbatim>\<open>yaml_check\<close> that \<^verbatim>\<open>write_yaml\<close>
  instantiates.  Every one of them is an \<^verbatim>\<open>AmfFile\<close>.
\<close>

datatype 'd amf_obj =
    CV pyclass "string list" 'd
  | FileInfoCheck "string list"
  | FileStructureCheck "string list"
  | GlobalAttrCheck "string list" 'd
  | WrapperYamlCheck "'d amf_obj list" "string list"

fun facets_of :: "'d amf_obj \<Rightarrow> string list" where
  "facets_of (CV c fs d) = fs"
| "facets_of (FileInfoCheck fs) = fs"
| "facets_of (FileStructureCheck fs) = fs"
| "facets_of (GlobalAttrCheck fs d) = fs"
| "facets_of (WrapperYamlCheck children fs) = fs"

definition amf_file :: "'d amf_obj \<Rightarrow> AmfFile" where
  "amf_file obj = new_AmfFile (facets_of obj)"


section \<open>The outside world\<close>

text \<open>
  What the handler reads from its surroundings: the imported classes, the file system
  (\<^verbatim>\<open>os.path.isfile\<close>, the triples \<^verbatim>\<open>os.walk\<close> yields, \<^verbatim>\<open>os.path.relpath\<close>,
  whether \<^verbatim>\<open>open(outpath, "w")\<close> and \<^verbatim>\<open>out_file.write\<close> succeed), and the outcome
  of instantiating a CV class on the file at a path: \<^verbatim>\<open>BaseCV.__init__\<close> stores the
  facets and calls the class's \<^verbatim>\<open>parse_tsv\<close>, which is implemented in the subclasses;
  an \<^verbatim>\<open>IOError\<close> of \<^verbatim>\<open>open(full_path)\<close> is an outcome of the same kind, since the
  handler catches neither.
\<close>

record 'd env =
  InstrumentsCV :: pyclass
  ProductsCV :: pyclass
  PlatformsCV :: pyclass
  ScientistsCV :: pyclass
  VariablesCV :: pyclass
  DimensionsCV :: pyclass
  YamlCheck :: pyclass
  os_path_isfile :: "string \<Rightarrow> bool"
  os_walk :: "string \<Rightarrow> (string \<times> string list \<times> string list) list"
  os_path_relpath :: "string \<Rightarrow> string \<Rightarrow> string"
  instantiate :: "pyclass \<Rightarrow> string \<Rightarrow> exn + 'd"
  instantiate_global_attrs :: "string \<Rightarrow> exn + 'd"
  open_w :: "string \<Rightarrow> exn option"
  file_write :: "string \<Rightarrow> string \<Rightarrow> exn option"

text \<open>
  What the handler does to its surroundings: lines printed to the standard output and
  to the standard error stream, and the files written (path and content), in order.
\<close>

record io =
  stdout :: "string list"
  stderr :: "string list"
  written :: "(string \<times> string) list"

definition print_out :: "string \<Rightarrow> io \<Rightarrow> io" where
  "print_out msg w = w\<lparr> stdout := stdout w @ [msg] \<rparr>"

definition print_err :: "string \<Rightarrow> io \<Rightarrow> io" where
  "print_err msg w = w\<lparr> stderr := stderr w @ [msg] \<rparr>"

section \<open>spreadsheet\_handler.py\<close>

datatype DeploymentModes = LAND | SEA | AIR

fun mode_value :: "DeploymentModes \<Rightarrow> string" where
  "mode_value LAND = ''Land''"
| "mode_value SEA = ''Sea''"
| "mode_value AIR = ''Air''"

text \<open>Iterating over the enumeration gives its members in definition order.\<close>

definition all_modes :: "DeploymentModes list" where
  "all_modes = [LAND, SEA, AIR]"

definition SPREADSHEET_NAMES :: "(string \<times> string) list" where
  "SPREADSHEET_NAMES =
    [(''products_dir'', ''Product Definition Spreadsheets''),
     (''common_spreadsheet'', ''Common.xlsx''),
     (''vocabs_spreadsheet'', ''Vocabularies.xlsx''),
     (''global_attrs_worksheet'', ''Global Attributes.tsv''),
     (''instruments_worksheet'', ''Instrument Name & Descriptors.tsv''),
     (''data_products_worksheet'', ''Data Products.tsv''),
     (''platforms_worksheet'', ''Platforms.tsv''),
     (''scientists_worksheet'', ''Creators.tsv'')]"

text \<open>
  \<^verbatim>\<open>SPREADSHEET_NAMES[key]\<close>; the handler only uses literal keys of the table.
\<close>

definition spreadsheet_name :: "string \<Rightarrow> string" where
  "spreadsheet_name key = (case map_of SPREADSHEET_NAMES key of Some v \<Rightarrow> v | None \<Rightarrow> [])"

text \<open>
  \<^verbatim>\<open>CVParseInfo\<close> is a named tuple \<^verbatim>\<open>(path, cls, facets)\<close>; the loading loop takes
  it apart positionally.
\<close>

type_synonym CVParseInfo = "string \<times> pyclass \<times> string list"

text \<open>
  \<^verbatim>\<open>VAR_DIM_FILENAME_MAPPING\<close>, from the filename prefix to the facet name and the
  class, in the order of the dictionary literal.
\<close>

definition VAR_DIM_FILENAME_MAPPING :: "'d env \<Rightarrow> (string \<times> string \<times> pyclass) list" where
  "VAR_DIM_FILENAME_MAPPING env =
    [(''Variables'', ''variable'', VariablesCV env),
     (''Dimensions'', ''dimension'', DimensionsCV env)]"

subsection \<open>The pattern of the per-product scan\<close>

text \<open>
  \<^verbatim>\<open>(?P<name>[a-zA-Z0-9-]+)/(?P=name)\.xlsx/(?P<type>Variables|Dimensions) - Specific.tsv$\<close>

  \<open>match_at\<close> is the pattern tried at the start of a string.  The name group is a run
  of name characters that a slash must follow; the slash is not a name character, so
  the only run that can match is the longest one.  After it come the slash, the same
  name again, \<^verbatim>\<open>.xlsx/\<close>, the type, \<^verbatim>\<open> - Specific.tsv\<close> and the end of the string,
  where \<^verbatim>\<open>$\<close> also accepts one final newline.  \<^verbatim>\<open>search\<close> returns the leftmost
  match.
\<close>

definition is_name_char :: "char \<Rightarrow> bool" where
  "is_name_char c = (let n = (of_char c :: nat) in
     (97 \<le> n \<and> n \<le> 122) \<or> (65 \<le> n \<and> n \<le> 90) \<or> (48 \<le> n \<and> n \<le> 57) \<or> n = 45)"

definition match_at :: "string \<Rightarrow> (string \<times> string) option" where
  "match_at s =
     (let name = takeWhile is_name_char s; rest = dropWhile is_name_char s in
      if name = [] then None
      else if rest = ''/'' @ name @ ''.xlsx/'' @ ''Variables'' @ '' - Specific.tsv''
            \<or> rest = ''/'' @ name @ ''.xlsx/'' @ ''Variables'' @ '' - Specific.tsv'' @ [CHR 0x0A]
           then Some (name, ''Variables'')
      else if rest = ''/'' @ name @ ''.xlsx/'' @ ''Dimensions'' @ '' - Specific.tsv''
            \<or> rest = ''/'' @ name @ ''.xlsx/'' @ ''Dimensions'' @ '' - Specific.tsv'' @ [CHR 0x0A]
           then Some (name, ''Dimensions'')
      else None)"

fun sheet_regex_search :: "string \<Rightarrow> (string \<times> string) option" where
  "sheet_regex_search [] = None"
| "sheet_regex_search (c # cs) =
     (case match_at (c # cs) of
        Some m \<Rightarrow> Some m
      | None \<Rightarrow> sheet_regex_search cs)"

subsection \<open>Source discovery\<close>

text \<open>
  \<^verbatim>\<open>_isfile\<close>: \<^verbatim>\<open>os.path.isfile\<close>, with a warning on the error stream when the
  path is not a file.
\<close>

definition isfile :: "'d env \<Rightarrow> string \<Rightarrow> io \<Rightarrow> bool \<times> io" where
  "isfile env path w =
     (let ok = os_path_isfile env path in
      (ok, if \<not> ok
           then print_err (''WARNING: Expected to find file at '' @ quote @ path @ quote) w
           else w))"

text \<open>
  \<^verbatim>\<open>_get_common_var_dim_parse_info\<close>.  The handler's directory \<^verbatim>\<open>self.path\<close> is the
  argument \<open>root\<close>.
\<close>

definition get_common_var_dim_parse_info :: "'d env \<Rightarrow> string \<Rightarrow> CVParseInfo list" where
  "get_common_var_dim_parse_info env root =
     (let common_dir = os_path_join root (spreadsheet_name ''common_spreadsheet'') in
      concat (map (\<lambda>(prefix, name, c).
        map (\<lambda>mode.
          let dep_m = mode_value mode;
              filename = prefix @ '' - '' @ dep_m @ ''.tsv''
          in (os_path_join common_dir filename, c,
              [''product'', ''common'', name, str_lower dep_m])) all_modes)
        (VAR_DIM_FILENAME_MAPPING env)))"

text \<open>
  \<^verbatim>\<open>_get_per_product_parse_info\<close>: the inner loop over the file names of one
  directory, the outer loop over the triples of \<^verbatim>\<open>os.walk\<close>.  A path the pattern
  does not match is reported with a plain \<^verbatim>\<open>print\<close> and skipped.  A type that is not
  a key of the mapping would raise \<^verbatim>\<open>KeyError\<close>.
\<close>

fun per_product_files ::
  "'d env \<Rightarrow> string \<Rightarrow> string \<Rightarrow> string list \<Rightarrow> io \<Rightarrow> io \<times> (exn + CVParseInfo list)" where
  "per_product_files env root dirpath [] w = (w, Inr [])"
| "per_product_files env root dirpath (fname # rest) w =
     (let path = os_path_join dirpath fname in
      case sheet_regex_search path of
        None \<Rightarrow>
          per_product_files env root dirpath rest
            (print_out (''WARNING: No match for '' @ quote @ path @ quote) w)
      | Some (prod_name, cv_type) \<Rightarrow>
          (case map_of (VAR_DIM_FILENAME_MAPPING env) cv_type of
             None \<Rightarrow> (w, Inl (KeyError cv_type))
           | Some (name, c) \<Rightarrow>
               (case per_product_files env root dirpath rest w of
                  (w', Inl e) \<Rightarrow> (w', Inl e)
                | (w', Inr infos) \<Rightarrow>
                    (w', Inr ((os_path_relpath env path root, c,
                               [''product'', prod_name, name]) # infos)))))"

fun per_product_dirs ::
  "'d env \<Rightarrow> string \<Rightarrow> (string \<times> string list \<times> string list) list \<Rightarrow> io
     \<Rightarrow> io \<times> (exn + CVParseInfo list)" where
  "per_product_dirs env root [] w = (w, Inr [])"
| "per_product_dirs env root ((dirpath, dirnames, filenames) # rest) w =
     (case per_product_files env root dirpath filenames w of
        (w', Inl e) \<Rightarrow> (w', Inl e)
      | (w', Inr infos) \<Rightarrow>
          (case per_product_dirs env root rest w' of
             (w'', Inl e) \<Rightarrow> (w'', Inl e)
           | (w'', Inr infos2) \<Rightarrow> (w'', Inr (infos @ infos2))))"

definition get_per_product_parse_info ::
  "'d env \<Rightarrow> string \<Rightarrow> io \<Rightarrow> io \<times> (exn + CVParseInfo list)" where
  "get_per_product_parse_info env root w =
     (let prods_dir = os_path_join root (spreadsheet_name ''products_dir'') in
      per_product_dirs env root (os_walk env prods_dir) w)"

subsection \<open>Loading the CVs\<close>

text \<open>
  The static entries at the head of \<^verbatim>\<open>cv_parse_infos\<close> in \<^verbatim>\<open>get_all_cvs\<close>.
\<close>

definition static_path :: "string \<Rightarrow> string" where
  "static_path name =
     os_path_join (spreadsheet_name ''vocabs_spreadsheet'') (spreadsheet_name name)"

definition static_parse_infos :: "'d env \<Rightarrow> CVParseInfo list" where
  "static_parse_infos env =
    [(static_path ''instruments_worksheet'', InstrumentsCV env, [''instrument'']),
     (static_path ''data_products_worksheet'', ProductsCV env, [''product'']),
     (static_path ''platforms_worksheet'', PlatformsCV env, [''platform'']),
     (static_path ''scientists_worksheet'', ScientistsCV env, [''scientist''])]"

text \<open>
  The loop \<^verbatim>\<open>for path, cls, facets in cv_parse_infos\<close> of \<^verbatim>\<open>get_all_cvs\<close>, run
  to its end as \<^verbatim>\<open>list(...)\<close> does in both callers.  The result is the list of the
  objects yielded, or the exception that left the loop.
\<close>

fun load_cvs ::
  "'d env \<Rightarrow> string \<Rightarrow> pyclass option \<Rightarrow> CVParseInfo list \<Rightarrow> io
     \<Rightarrow> io \<times> (exn + 'd amf_obj list)" where
  "load_cvs env root base_class [] w = (w, Inr [])"
| "load_cvs env root base_class ((path, cls, fs) # rest) w =
     (if (case base_class of None \<Rightarrow> False | Some b \<Rightarrow> b \<notin> set (cls_bases cls))
      then load_cvs env root base_class rest w
      else
        let full_path = os_path_join root path in
        (case isfile env full_path w of
           (False, w1) \<Rightarrow> load_cvs env root base_class rest w1
         | (True, w1) \<Rightarrow>
             (case instantiate env cls full_path of
                Inr d \<Rightarrow>
                  (case load_cvs env root base_class rest w1 of
                     (w2, Inl e) \<Rightarrow> (w2, Inl e)
                   | (w2, Inr cvs) \<Rightarrow> (w2, Inr (CV cls fs d # cvs)))
              | Inl (DimensionsSheetNoRowsError msg) \<Rightarrow>
                  load_cvs env root base_class rest w1
              | Inl (CVParseError msg) \<Rightarrow>
                  load_cvs env root base_class rest
                    (print_err (''WARNING: Failed to parse '' @ quote @ full_path @ quote
                                @ '': '' @ msg) w1)
              | Inl e \<Rightarrow> (w1, Inl e))))"

definition get_all_cvs ::
  "'d env \<Rightarrow> string \<Rightarrow> pyclass option \<Rightarrow> io \<Rightarrow> io \<times> (exn + 'd amf_obj list)" where
  "get_all_cvs env root base_class w =
     (let cv_parse_infos = static_parse_infos env @ get_common_var_dim_parse_info env root in
      case get_per_product_parse_info env root w of
        (w1, Inl e) \<Rightarrow> (w1, Inl e)
      | (w1, Inr per_product_cvs) \<Rightarrow>
          let w2 = (if per_product_cvs = []
                    then print_err
                      (''WARNING: No product variable/dimension spreadsheets found in ''
                       @ os_path_join root (spreadsheet_name ''products_dir'')) w1
                    else w1)
          in load_cvs env root base_class (cv_parse_infos @ per_product_cvs) w2)"

subsection \<open>The bulk writer\<close>

text \<open>
  \<^verbatim>\<open>_write_output_files\<close>.  For each object the output file is opened, the callback
  renders the object, the text is written and the count goes up; then the count is
  printed.  Nothing is caught: a failure of \<^verbatim>\<open>open\<close>, of the callback or of
  \<^verbatim>\<open>write\<close> leaves the loop with the exception.  The record of written files holds
  the writes that completed.
\<close>

fun write_loop ::
  "'d env \<Rightarrow> ('d amf_obj \<Rightarrow> exn + string) \<Rightarrow> string \<Rightarrow> string \<Rightarrow> 'd amf_obj list
     \<Rightarrow> nat \<Rightarrow> io \<Rightarrow> io \<times> (exn + nat)" where
  "write_loop env callback output_dir ext [] count w = (w, Inr count)"
| "write_loop env callback output_dir ext (f # rest) count w =
     (let fname = get_filename (amf_file f) ext;
          outpath = os_path_join output_dir fname in
      case open_w env outpath of
        Some e \<Rightarrow> (w, Inl e)
      | None \<Rightarrow>
          (case callback f of
             Inl e \<Rightarrow> (w, Inl e)
           | Inr content \<Rightarrow>
               (case file_write env outpath content of
                  Some e \<Rightarrow> (w, Inl e)
                | None \<Rightarrow>
                    write_loop env callback output_dir ext rest (count + 1)
                      (w\<lparr> written := written w @ [(outpath, content)] \<rparr>))))"

definition write_output_files ::
  "'d env \<Rightarrow> 'd amf_obj list \<Rightarrow> ('d amf_obj \<Rightarrow> exn + string) \<Rightarrow> string \<Rightarrow> string \<Rightarrow> io
     \<Rightarrow> io \<times> exn option" where
  "write_output_files env files callback output_dir ext w =
     (case write_loop env callback output_dir ext files 0 w of
        (w', Inl e) \<Rightarrow> (w', Some e)
      | (w', Inr count) \<Rightarrow> (print_out (str_of_nat count @ '' files written'') w', None))"

subsection \<open>Compiling the checks\<close>









section \<open>cvs/base.py: the whitespace-stripping reader\<close>

text \<open>
  A row as \<^verbatim>\<open>DictReader.next\<close> returns it, item by item: the keys are the header
  cells, and \<^verbatim>\<open>None\<close> (the default \<^verbatim>\<open>restkey\<close>) when the line has more cells than
  the header; a value is a string, \<^verbatim>\<open>None\<close> (the default \<^verbatim>\<open>restval\<close>) for a cell
  the line does not have, or the list of the surplus cells under the \<^verbatim>\<open>None\<close> key.
\<close>

datatype cell = Str string | NoneCell | Surplus "string list"

type_synonym raw_row = "(string option \<times> cell) list"

text \<open>
  One item of the dictionary comprehension of \<^verbatim>\<open>StripWhitespaceReader.next\<close>:
  \<^verbatim>\<open>k.strip(): v.strip() if v is not None else v\<close>.  \<^verbatim>\<open>None\<close> and a list have no
  \<^verbatim>\<open>strip\<close>.
\<close>

fun strip_item :: "string option \<times> cell \<Rightarrow> exn + (string \<times> string option)" where
  "strip_item (k, Surplus cells) = Inl (AttributeError ''strip'')"
| "strip_item (None, v) = Inl (AttributeError ''strip'')"
| "strip_item (Some k, Str v) = Inr (str_strip k, Some (str_strip v))"
| "strip_item (Some k, NoneCell) = Inr (str_strip k, None)"

fun strip_items ::
  "raw_row \<Rightarrow> (string \<rightharpoonup> string option) \<Rightarrow> exn + (string \<rightharpoonup> string option)" where
  "strip_items [] d = Inr d"
| "strip_items (item # rest) d =
     (case strip_item item of
        Inl e \<Rightarrow> Inl e
      | Inr (k, v) \<Rightarrow> strip_items rest (d(k \<mapsto> v)))"

text \<open>
  \<^verbatim>\<open>StripWhitespaceReader.next\<close>, given what \<^verbatim>\<open>DictReader.next\<close> did: it raised
  (\<^verbatim>\<open>StopIteration\<close> at the end of the file) or returned a row.
\<close>

definition StripWhitespaceReader_next ::
  "exn + raw_row \<Rightarrow> exn + (string \<rightharpoonup> string option)" where
  "StripWhitespaceReader_next dict_reader_next =
     (case dict_reader_next of
        Inl e \<Rightarrow> Inl e
      | Inr row \<Rightarrow> strip_items row Map.empty)"

section \<open>Helper definitions for the proofs\<close>

text \<open>
  Splitting at a separator character undoes \<open>str_join\<close> on a non-empty list of tokens
  that do not contain the character; it is only used to prove injectivity.
\<close>

fun split_at :: "char \<Rightarrow> string \<Rightarrow> string list" where
  "split_at c [] = [[]]"
| "split_at c (x # xs) =
     (if x = c then [] # split_at c xs
      else (case split_at c xs of [] \<Rightarrow> [[x]] | t # ts \<Rightarrow> (x # t) # ts))"

text \<open>
  The test of the loading loop on the class of an entry, the objects one entry
  contributes when nothing but a parse error is raised, and the two exceptions the
  loop catches.
\<close>

definition passes_filter :: "pyclass option \<Rightarrow> CVParseInfo \<Rightarrow> bool" where
  "passes_filter base_class info =
     (case base_class of None \<Rightarrow> True | Some b \<Rightarrow> b \<in> set (cls_bases (fst (snd info))))"

definition yielded :: "'d env \<Rightarrow> string \<Rightarrow> CVParseInfo \<Rightarrow> 'd amf_obj list" where
  "yielded env root info =
     (let full_path = os_path_join root (fst info) in
      if os_path_isfile env full_path then
        (case instantiate env (fst (snd info)) full_path of
           Inr d \<Rightarrow> [CV (fst (snd info)) (snd (snd info)) d]
         | Inl e \<Rightarrow> [])
      else [])"

fun is_parse_error :: "exn \<Rightarrow> bool" where
  "is_parse_error (DimensionsSheetNoRowsError m) = True"
| "is_parse_error (CVParseError m) = True"
| "is_parse_error e = False"

text \<open>The shape of the facets of an entry found by the per-product scan.\<close>

definition scan_facets_ok :: "CVParseInfo \<Rightarrow> bool" where
  "scan_facets_ok info =
     (\<exists>n k. snd (snd info) = [''product'', n, k] \<and> n \<noteq> [] \<and> (\<forall>c\<in>set n. is_name_char c)
            \<and> (k = ''variable'' \<or> k = ''dimension''))"

subsection \<open>Example surroundings\<close>

text \<open>
  A class table in which the variable and dimension CVs are direct subclasses of
  \<^verbatim>\<open>YamlCheck\<close>, over a file system, a directory listing and constructor outcomes
  that the examples choose.
\<close>

definition AmfFile_class :: pyclass where
  "AmfFile_class = PyClass ''AmfFile'' [PyClass ''object'' []]"

definition BaseCV_class :: pyclass where
  "BaseCV_class = PyClass ''BaseCV'' [AmfFile_class]"

definition YamlCheck_class :: pyclass where
  "YamlCheck_class = PyClass ''YamlCheck'' [AmfFile_class]"

definition example_env ::
  "(string \<Rightarrow> bool) \<Rightarrow> (string \<times> string list \<times> string list) list
     \<Rightarrow> (pyclass \<Rightarrow> string \<Rightarrow> exn + string) \<Rightarrow> pyclass \<Rightarrow> string env" where
  "example_env files walked inst variables_class =
     \<lparr> InstrumentsCV = PyClass ''InstrumentsCV'' [BaseCV_class],
       ProductsCV = PyClass ''ProductsCV'' [BaseCV_class],
       PlatformsCV = PyClass ''PlatformsCV'' [BaseCV_class],
       ScientistsCV = PyClass ''ScientistsCV'' [BaseCV_class],
       VariablesCV = variables_class,
       DimensionsCV = PyClass ''DimensionsCV'' [BaseCV_class, YamlCheck_class],
       YamlCheck = YamlCheck_class,
       os_path_isfile = files,
       os_walk = (\<lambda>top. walked),
       os_path_relpath = (\<lambda>path start. drop (Suc (length start)) path),
       instantiate = inst,
       instantiate_global_attrs = (\<lambda>path. Inr ''attrs''),
       open_w = (\<lambda>path. None),
       file_write = (\<lambda>path content. None) \<rparr>"

definition io0 :: io where
  "io0 = \<lparr> stdout = [], stderr = [], written = [] \<rparr>"

definition failing_inst :: "pyclass \<Rightarrow> string \<Rightarrow> exn + string" where
  "failing_inst c path =
     (if cls_name c = ''DimensionsCV'' then Inl (DimensionsSheetNoRowsError ''no rows'')
      else if cls_name c = ''VariablesCV'' then Inl (CVParseError ''bad header'')
      else if cls_name c = ''PlatformsCV'' then Inl (IOError ''denied'')
      else Inr ''data'')"


text \<open>
  The list \<^verbatim>\<open>cv_parse_infos\<close> that the loading loop of \<^verbatim>\<open>get_all_cvs\<close> runs
  over: the static entries, the common entries and the entries of the per-product scan.
\<close>

definition cv_parse_infos :: "'d env \<Rightarrow> string \<Rightarrow> io \<Rightarrow> CVParseInfo list" where
  "cv_parse_infos env root w =
     static_parse_infos env @ get_common_var_dim_parse_info env root
       @ (case snd (get_per_product_parse_info env root w) of Inr infos \<Rightarrow> infos | Inl e \<Rightarrow> [])"




text \<open>
  For one object of the bulk writer: the path of its output file, the exception (if
  any) that opening, rendering or writing raises, and the rendered text.
\<close>

definition outpath_of :: "string \<Rightarrow> string \<Rightarrow> 'd amf_obj \<Rightarrow> string" where
  "outpath_of output_dir ext f = os_path_join output_dir (get_filename (amf_file f) ext)"

definition write_failure ::
  "'d env \<Rightarrow> ('d amf_obj \<Rightarrow> exn + string) \<Rightarrow> string \<Rightarrow> string \<Rightarrow> 'd amf_obj \<Rightarrow> exn option" where
  "write_failure env callback output_dir ext f =
     (case open_w env (outpath_of output_dir ext f) of
        Some e \<Rightarrow> Some e
      | None \<Rightarrow>
          (case callback f of
             Inl e \<Rightarrow> Some e
           | Inr content \<Rightarrow> file_write env (outpath_of output_dir ext f) content))"

definition rendered :: "('d amf_obj \<Rightarrow> exn + string) \<Rightarrow> 'd amf_obj \<Rightarrow> string" where
  "rendered callback f = (case callback f of Inr content \<Rightarrow> content | Inl e \<Rightarrow> [])"

text \<open>A tree with one file that the pattern of the per-product scan does not match.\<close>

definition readme_env :: "string env" where
  "readme_env =
     example_env (\<lambda>p. False) [(''/d/Product Definition Spreadsheets'', [], [''README.txt''])]
       (\<lambda>c p. Inr ''data'') (PyClass ''VariablesCV'' [BaseCV_class, YamlCheck_class])"

text \<open>Surroundings in which one output file cannot be opened.\<close>

definition readonly_env :: "string env" where
  "readonly_env =
     (example_env (\<lambda>p. False) [] (\<lambda>c p. Inr ''data'')
        (PyClass ''VariablesCV'' [BaseCV_class, YamlCheck_class]))
     \<lparr> open_w := (\<lambda>p. if p = ''/out/AMF_file_structure.yml''
                       then Some (IOError ''denied'') else None) \<rparr>"

text \<open>A string without leading or trailing whitespace.\<close>

definition trimmed :: "string \<Rightarrow> bool" where
  "trimmed s = (s = [] \<or> (\<not> is_space (hd s) \<and> \<not> is_space (last s)))"

text \<open>The cell a stripped row holds for a cell of the raw row.\<close>

fun stripped_cell :: "cell \<Rightarrow> string option" where
  "stripped_cell (Str v) = Some (str_strip v)"
| "stripped_cell NoneCell = None"
| "stripped_cell (Surplus cells) = None"

text \<open>
  The keys under which the grouping loop of \<^verbatim>\<open>write_yaml\<close> files a record: the
  product name for a product-scoped record (at least three facets, the first
  \<^verbatim>\<open>product\<close>) of a named product, the last facet for one whose second facet is
  \<^verbatim>\<open>common\<close>.
\<close>

definition product_key :: "'d amf_obj \<Rightarrow> string option" where
  "product_key cv =
     (let fs = facets_of cv in
      if length fs > 2 \<and> fs ! 0 = ''product'' \<and> fs ! 1 \<noteq> ''common'' then Some (fs ! 1)
      else None)"

definition common_key :: "'d amf_obj \<Rightarrow> string option" where
  "common_key cv =
     (let fs = facets_of cv in
      if length fs > 2 \<and> fs ! 0 = ''product'' \<and> fs ! 1 = ''common'' then Some (last fs)
      else None)"


text \<open>
  The wrapper check for a product and a deployment mode, from the global checks and
  the records loaded.
\<close>

definition wrapper_for ::
  "'d amf_obj list \<Rightarrow> 'd amf_obj list \<Rightarrow> string \<Rightarrow> DeploymentModes \<Rightarrow> 'd amf_obj" where
  "wrapper_for global_checks cvs p mode =
     WrapperYamlCheck
       (global_checks @ filter (\<lambda>cv. product_key cv = Some p) cvs
          @ filter (\<lambda>cv. common_key cv = Some (str_lower (mode_value mode))) cvs)
       [''product'', p, str_lower (mode_value mode)]"




text \<open>
  The two warnings of the loading loop, and the warning of \<^verbatim>\<open>get_all_cvs\<close> for a
  scan without entries.
\<close>

definition missing_file_warning :: "string \<Rightarrow> string" where
  "missing_file_warning path = ''WARNING: Expected to find file at '' @ quote @ path @ quote"

definition parse_warning :: "string \<Rightarrow> string \<Rightarrow> string" where
  "parse_warning path msg = ''WARNING: Failed to parse '' @ quote @ path @ quote @ '': '' @ msg"

definition no_products_warning :: "string \<Rightarrow> string" where
  "no_products_warning root =
     ''WARNING: No product variable/dimension spreadsheets found in ''
       @ os_path_join root ''Product Definition Spreadsheets''"

definition is_load_warning :: "string \<Rightarrow> bool" where
  "is_load_warning m =
     (take 34 m = ''WARNING: Expected to find file at '' \<or> take 25 m = ''WARNING: Failed to parse '')"

text \<open>
  The tokens between the separators of the namespace of an object, and the shapes the
  facets of a discovered entry can have: a static entry, a common entry, an entry of
  the per-product scan.
\<close>

definition filename_tokens :: "'d amf_obj \<Rightarrow> string list" where
  "filename_tokens c = split_at (CHR ''_'') (namespace (amf_file c))"

definition static_facets :: "string list \<Rightarrow> bool" where
  "static_facets fs =
     (fs = [''instrument''] \<or> fs = [''product''] \<or> fs = [''platform''] \<or> fs = [''scientist''])"

definition common_facets :: "string list \<Rightarrow> bool" where
  "common_facets fs =
     (\<exists>k m. fs = [''product'', ''common'', k, m]
            \<and> (k = ''variable'' \<or> k = ''dimension'')
            \<and> (m = ''land'' \<or> m = ''sea'' \<or> m = ''air''))"

definition scan_facets :: "string list \<Rightarrow> bool" where
  "scan_facets fs =
     (\<exists>n k. fs = [''product'', n, k] \<and> n \<noteq> [] \<and> (\<forall>c\<in>set n. is_name_char c)
            \<and> (k = ''variable'' \<or> k = ''dimension''))"

definition cv_facets_ok :: "string list \<Rightarrow> bool" where
  "cv_facets_ok fs = (static_facets fs \<or> common_facets fs \<or> scan_facets fs)"

text \<open>The facets of the wrappers of a list of product names.\<close>

definition wrapper_facets :: "string list \<Rightarrow> string list list" where
  "wrapper_facets ps =
     concat (map (\<lambda>p. [[''product'', p, ''land''], [''product'', p, ''sea''],
                        [''product'', p, ''air'']]) ps)"
section \<open>Properties of the facet namer\<close>

lemma split_at_token: "c \<notin> set t \<Longrightarrow> split_at c (t @ c # s) = t # split_at c s"
  by (induction t) auto

lemma split_at_plain: "c \<notin> set t \<Longrightarrow> split_at c t = [t]"
  by (induction t) auto

lemma str_join_unfold:
  "str_join sep (x # xs) = x @ concat (map (\<lambda>t. sep @ t) xs)"
  by (induction xs arbitrary: x) auto

lemma split_at_tokens:
  "c \<notin> set x \<Longrightarrow> \<forall>t\<in>set xs. c \<notin> set t \<Longrightarrow>
   split_at c (x @ concat (map (\<lambda>t. [c] @ t) xs)) = x # xs"
proof (induction xs arbitrary: x)
  case Nil
  then show ?case by (simp add: split_at_plain)
next
  case (Cons y ys)
  then have "split_at c (y @ concat (map (\<lambda>t. [c] @ t) ys)) = y # ys" by simp
  with Cons.prems show ?case by (simp add: split_at_token)
qed

lemma split_at_str_join:
  "fs \<noteq> [] \<Longrightarrow> \<forall>t\<in>set fs. c \<notin> set t \<Longrightarrow> split_at c (str_join [c] fs) = fs"
  using split_at_tokens [of c "hd fs" "tl fs"]
  by (cases fs) (simp_all add: str_join_unfold)

lemma str_join_eq_Nil: "str_join [c] fs = [] \<Longrightarrow> fs = [] \<or> fs = [[]]"
  by (cases fs) (auto simp: str_join_unfold split: list.splits)

lemma str_join_inj:
  assumes eq: "str_join [c] fs = str_join [c] gs"
    and fs: "\<forall>t\<in>set fs. c \<notin> set t" and gs: "\<forall>t\<in>set gs. c \<notin> set t"
    and ex: "\<not> (fs = [] \<and> gs = [[]])" "\<not> (fs = [[]] \<and> gs = [])"
  shows "fs = gs"
proof (cases "fs = [] \<or> gs = []")
  case True
  then show ?thesis
  proof
    assume "fs = []"
    with eq have "str_join [c] gs = []" by simp
    with ex \<open>fs = []\<close> show ?thesis by (auto dest: str_join_eq_Nil)
  next
    assume "gs = []"
    with eq have "str_join [c] fs = []" by simp
    with ex \<open>gs = []\<close> show ?thesis by (auto dest: str_join_eq_Nil)
  qed
next
  case False
  then have "split_at c (str_join [c] fs) = fs" "split_at c (str_join [c] gs) = gs"
    using fs gs by (simp_all add: split_at_str_join)
  with eq show ?thesis by metis
qed

text \<open>
  Claim C4 as the specification states it fails: the empty facet sequence and the
  sequence holding one empty token are distinct, neither contains the separator, and
  both are named \<^verbatim>\<open>AMF_.yml\<close>.
\<close>

theorem C4_empty_token_collision:
  "get_filename (new_AmfFile []) ''yml'' = get_filename (new_AmfFile [[]]) ''yml''
   \<and> ([] :: string list) \<noteq> [[]] \<and> CHR ''_'' \<notin> set ([] :: string)"
  by (simp add: get_filename_def new_AmfFile_def)

text \<open>
  Claim C4, amended: the namespace is the facets joined by \<^verbatim>\<open>"_"\<close> with nothing
  escaped, the filename is \<^verbatim>\<open>"AMF" + "_" + namespace + "." + ext\<close>, and two distinct
  facet sequences whose tokens do not contain the separator have distinct filenames
  for the same extension, unless one is the empty sequence and the other holds exactly
  one empty token.
\<close>

theorem C4_facet_namer:
  "namespace (new_AmfFile []) = ''''
   \<and> namespace (new_AmfFile (f # fs)) = f @ concat (map (\<lambda>t. ''_'' @ t) fs)
   \<and> get_filename (new_AmfFile F) ext = ''AMF'' @ ''_'' @ namespace (new_AmfFile F) @ ''.'' @ ext
   \<and> ((\<forall>t\<in>set F \<union> set G. CHR ''_'' \<notin> set t) \<and> F \<noteq> G
        \<and> \<not> (F = [] \<and> G = [[]]) \<and> \<not> (F = [[]] \<and> G = [])
      \<longrightarrow> get_filename (new_AmfFile F) ext \<noteq> get_filename (new_AmfFile G) ext)"
proof -
  have inj: "get_filename (new_AmfFile F) ext \<noteq> get_filename (new_AmfFile G) ext"
    if h: "\<forall>t\<in>set F \<union> set G. CHR ''_'' \<notin> set t" "F \<noteq> G"
      "\<not> (F = [] \<and> G = [[]])" "\<not> (F = [[]] \<and> G = [])"
  proof
    assume "get_filename (new_AmfFile F) ext = get_filename (new_AmfFile G) ext"
    then have "str_join [CHR ''_''] F = str_join [CHR ''_''] G"
      by (simp add: get_filename_def new_AmfFile_def facet_separator_def)
    with h show False using str_join_inj [of "CHR ''_''" F G] by auto
  qed
  have ns: "namespace (new_AmfFile (f # fs)) = f @ concat (map (\<lambda>t. ''_'' @ t) fs)"
    by (simp add: new_AmfFile_def facet_separator_def str_join_unfold)
  have nil: "namespace (new_AmfFile []) = []"
    by (simp add: new_AmfFile_def)
  have fn: "get_filename (new_AmfFile F) ext
      = ''AMF'' @ ''_'' @ namespace (new_AmfFile F) @ ''.'' @ ext"
    by (simp add: get_filename_def facet_separator_def)
  from nil ns fn inj show ?thesis by blast
qed

theorem C4_facet_namer_witness:
  "get_filename (new_AmfFile [''product'', ''radar'', ''land'']) ''yml''
     = ''AMF_product_radar_land.yml''
   \<and> get_filename (new_AmfFile [''product'', ''radar'', ''land'']) ''yml''
     \<noteq> get_filename (new_AmfFile [''product'', ''radar'', ''sea'']) ''yml''"
proof -
  have h: "(\<forall>t\<in>set [''product'', ''radar'', ''land''] \<union> set [''product'', ''radar'', ''sea''].
              CHR ''_'' \<notin> set t)
      \<and> [''product'', ''radar'', ''land''] \<noteq> [''product'', ''radar'', ''sea'']
      \<and> \<not> ([''product'', ''radar'', ''land''] = [] \<and> [''product'', ''radar'', ''sea''] = [[]])
      \<and> \<not> ([''product'', ''radar'', ''land''] = [[]] \<and> [''product'', ''radar'', ''sea''] = [])"
    by simp
  have e: "get_filename (new_AmfFile [''product'', ''radar'', ''land'']) ''yml''
      = ''AMF_product_radar_land.yml''"
    by (simp add: get_filename_def new_AmfFile_def facet_separator_def)
  from h e show ?thesis
    using C4_facet_namer [of "''product''" "[''radar'', ''land'']"
      "[''product'', ''radar'', ''land'']" "''yml''" "[''product'', ''radar'', ''sea'']"]
    by blast
qed

section \<open>Properties of source discovery and loading\<close>

lemma load_cvs_skip_filtered:
  "\<not> passes_filter bc (p, c, fs) \<Longrightarrow>
   load_cvs env root bc ((p, c, fs) # rest) w = load_cvs env root bc rest w"
  by (simp add: passes_filter_def split: option.splits)

lemma load_cvs_Inr:
  "load_cvs env root bc infos w = (w', Inr cvs) \<Longrightarrow>
   cvs = concat (map (yielded env root) (filter (passes_filter bc) infos))"
proof (induction infos arbitrary: w w' cvs)
  case Nil
  then show ?case by simp
next
  case (Cons info rest)
  obtain p c fs where info: "info = (p, c, fs)" by (cases info) auto
  show ?case
  proof (cases "passes_filter bc info")
    case False
    with info have "load_cvs env root bc (info # rest) w = load_cvs env root bc rest w"
      using load_cvs_skip_filtered by blast
    with Cons.prems have "load_cvs env root bc rest w = (w', Inr cvs)" by simp
    then have "cvs = concat (map (yielded env root) (filter (passes_filter bc) rest))"
      by (rule Cons.IH)
    with False show ?thesis by simp
  next
    case True
    with Cons.prems info Cons.IH show ?thesis
      by (auto simp: passes_filter_def yielded_def isfile_def Let_def
               split: option.splits if_splits sum.splits exn.splits prod.splits)
  qed
qed

lemma load_cvs_Inl:
  "load_cvs env root bc infos w = (w', Inl e) \<Longrightarrow> \<not> is_parse_error e"
proof (induction infos arbitrary: w w')
  case Nil
  then show ?case by simp
next
  case (Cons info rest)
  obtain p c fs where info: "info = (p, c, fs)" by (cases info) auto
  from Cons.prems info Cons.IH show ?case
    by (auto simp: isfile_def Let_def
             split: option.splits if_splits sum.splits exn.splits prod.splits)
qed


lemma match_at_Some:
  "match_at s = Some (n, t) \<Longrightarrow>
   n \<noteq> [] \<and> (\<forall>c\<in>set n. is_name_char c) \<and> (t = ''Variables'' \<or> t = ''Dimensions'')"
  unfolding match_at_def Let_def
  by (auto split: if_splits dest: set_takeWhileD)

lemma sheet_regex_search_Some:
  "sheet_regex_search s = Some (n, t) \<Longrightarrow>
   n \<noteq> [] \<and> (\<forall>c\<in>set n. is_name_char c) \<and> (t = ''Variables'' \<or> t = ''Dimensions'')"
proof (induction s)
  case Nil
  then show ?case by simp
next
  case (Cons c cs)
  show ?case
  proof (cases "match_at (c # cs)")
    case None
    with Cons show ?thesis by simp
  next
    case (Some m)
    with Cons.prems have "match_at (c # cs) = Some (n, t)" by simp
    then show ?thesis by (rule match_at_Some)
  qed
qed

lemma mapping_lookup:
  "t = ''Variables'' \<or> t = ''Dimensions'' \<Longrightarrow>
   map_of (VAR_DIM_FILENAME_MAPPING env) t
     = Some (if t = ''Variables'' then (''variable'', VariablesCV env)
             else (''dimension'', DimensionsCV env))"
  by (auto simp: VAR_DIM_FILENAME_MAPPING_def)

lemma per_product_files_Inr:
  "\<exists>w' infos. per_product_files env root dirpath fnames w = (w', Inr infos)
      \<and> stderr w' = stderr w \<and> written w' = written w \<and> (\<forall>i\<in>set infos. scan_facets_ok i)"
proof (induction fnames arbitrary: w)
  case Nil
  then show ?case by simp
next
  case (Cons fname rest)
  let ?path = "os_path_join dirpath fname"
  show ?case
  proof (cases "sheet_regex_search ?path")
    case None
    obtain w' infos where
      "per_product_files env root dirpath rest
         (print_out (''WARNING: No match for '' @ quote @ ?path @ quote) w) = (w', Inr infos)"
      "stderr w' = stderr (print_out (''WARNING: No match for '' @ quote @ ?path @ quote) w)"
      "written w' = written (print_out (''WARNING: No match for '' @ quote @ ?path @ quote) w)"
      "\<forall>i\<in>set infos. scan_facets_ok i"
      using Cons.IH by blast
    with None show ?thesis by (simp add: print_out_def)
  next
    case (Some m)
    obtain n t where m: "m = (n, t)" by (cases m) auto
    from Some m have nt: "n \<noteq> [] \<and> (\<forall>c\<in>set n. is_name_char c)
        \<and> (t = ''Variables'' \<or> t = ''Dimensions'')"
      using sheet_regex_search_Some by blast
    then have look: "map_of (VAR_DIM_FILENAME_MAPPING env) t
        = Some (if t = ''Variables'' then (''variable'', VariablesCV env)
                else (''dimension'', DimensionsCV env))"
      by (simp add: mapping_lookup)
    obtain w' infos where rest:
      "per_product_files env root dirpath rest w = (w', Inr infos)"
      "stderr w' = stderr w" "written w' = written w" "\<forall>i\<in>set infos. scan_facets_ok i"
      using Cons.IH by blast
    from nt have "scan_facets_ok (os_path_relpath env ?path root,
        (if t = ''Variables'' then VariablesCV env else DimensionsCV env),
        [''product'', n, if t = ''Variables'' then ''variable'' else ''dimension''])"
      by (auto simp: scan_facets_ok_def)
    with Some m look rest show ?thesis by (auto simp: Let_def)
  qed
qed

lemma per_product_dirs_Inr:
  "\<exists>w' infos. per_product_dirs env root walked w = (w', Inr infos)
      \<and> stderr w' = stderr w \<and> written w' = written w \<and> (\<forall>i\<in>set infos. scan_facets_ok i)"
proof (induction walked arbitrary: w)
  case Nil
  then show ?case by simp
next
  case (Cons triple rest)
  obtain dirpath dirnames filenames where t: "triple = (dirpath, dirnames, filenames)"
    by (cases triple) auto
  obtain w1 infos1 where f:
    "per_product_files env root dirpath filenames w = (w1, Inr infos1)"
    "stderr w1 = stderr w" "written w1 = written w" "\<forall>i\<in>set infos1. scan_facets_ok i"
    using per_product_files_Inr by blast
  obtain w2 infos2 where d:
    "per_product_dirs env root rest w1 = (w2, Inr infos2)"
    "stderr w2 = stderr w1" "written w2 = written w1" "\<forall>i\<in>set infos2. scan_facets_ok i"
    using Cons.IH by blast
  from t f d show ?case by auto
qed

lemma get_per_product_parse_info_Inr:
  "\<exists>w' infos. get_per_product_parse_info env root w = (w', Inr infos)
      \<and> stderr w' = stderr w \<and> written w' = written w \<and> (\<forall>i\<in>set infos. scan_facets_ok i)"
  unfolding get_per_product_parse_info_def Let_def by (rule per_product_dirs_Inr)


lemma ex_env_simps:
  "os_path_isfile (example_env files walked inst v) = files"
  "os_walk (example_env files walked inst v) = (\<lambda>top. walked)"
  "instantiate (example_env files walked inst v) = inst"
  "VariablesCV (example_env files walked inst v) = v"
  "DimensionsCV (example_env files walked inst v) = PyClass ''DimensionsCV'' [BaseCV_class, YamlCheck_class]"
  "PlatformsCV (example_env files walked inst v) = PyClass ''PlatformsCV'' [BaseCV_class]"
  "YamlCheck (example_env files walked inst v) = YamlCheck_class"
  by (simp_all add: example_env_def)

text \<open>
  Claim C5: in the loading loop a \<^verbatim>\<open>DimensionsSheetNoRowsError\<close> raised by the
  constructor is skipped without a trace (the loop goes on with the remaining sources
  in the same state of the output streams and yields nothing for this source), any
  other \<^verbatim>\<open>CVParseError\<close> adds one warning with the full source path and the message
  to the error stream and the loop goes on with the remaining sources, and neither of
  the two is ever the exception with which the loop or \<^verbatim>\<open>get_all_cvs\<close> ends.
\<close>

theorem C5_parse_errors_stay_in_loop:
  "(passes_filter bc (p, c, fs) \<and> os_path_isfile env (os_path_join root p)
      \<and> instantiate env c (os_path_join root p) = Inl (DimensionsSheetNoRowsError m)
     \<longrightarrow> load_cvs env root bc ((p, c, fs) # rest) w = load_cvs env root bc rest w)
   \<and> (passes_filter bc (p, c, fs) \<and> os_path_isfile env (os_path_join root p)
      \<and> instantiate env c (os_path_join root p) = Inl (CVParseError m)
     \<longrightarrow> load_cvs env root bc ((p, c, fs) # rest) w
         = load_cvs env root bc rest
             (print_err (''WARNING: Failed to parse '' @ quote @ os_path_join root p @ quote
                         @ '': '' @ m) w))
   \<and> (load_cvs env root bc infos w = (w', Inl e) \<longrightarrow> \<not> is_parse_error e)
   \<and> (get_all_cvs env root bc w = (w', Inl e) \<longrightarrow> \<not> is_parse_error e)"
proof (intro conjI impI)
  assume "passes_filter bc (p, c, fs) \<and> os_path_isfile env (os_path_join root p)
      \<and> instantiate env c (os_path_join root p) = Inl (DimensionsSheetNoRowsError m)"
  then show "load_cvs env root bc ((p, c, fs) # rest) w = load_cvs env root bc rest w"
    by (simp add: passes_filter_def isfile_def split: option.splits)
next
  assume "passes_filter bc (p, c, fs) \<and> os_path_isfile env (os_path_join root p)
      \<and> instantiate env c (os_path_join root p) = Inl (CVParseError m)"
  then show "load_cvs env root bc ((p, c, fs) # rest) w
         = load_cvs env root bc rest
             (print_err (''WARNING: Failed to parse '' @ quote @ os_path_join root p @ quote
                         @ '': '' @ m) w)"
    by (simp add: passes_filter_def isfile_def split: option.splits)
next
  assume "load_cvs env root bc infos w = (w', Inl e)"
  then show "\<not> is_parse_error e" by (rule load_cvs_Inl)
next
  assume a: "get_all_cvs env root bc w = (w', Inl e)"
  show "\<not> is_parse_error e"
  proof (cases "get_per_product_parse_info env root w")
    case (Pair w1 r)
    show ?thesis
    proof (cases r)
      case (Inl e1)
      with a Pair have "e = e1" by (simp add: get_all_cvs_def)
      moreover from Pair Inl have False
        using get_per_product_parse_info_Inr [of env root w] by auto
      ultimately show ?thesis by simp
    next
      case (Inr pp)
      with a Pair show ?thesis
        by (auto simp: get_all_cvs_def Let_def dest: load_cvs_Inl split: if_splits)
    qed
  qed
qed

theorem C5_parse_errors_stay_in_loop_witness:
  "load_cvs (example_env (\<lambda>p. True) [] failing_inst (PyClass ''VariablesCV'' [BaseCV_class, YamlCheck_class]))
      ''/d'' None [(''dims.tsv'', PyClass ''DimensionsCV'' [BaseCV_class, YamlCheck_class], [''x''])] io0
     = (io0, Inr [])
   \<and> load_cvs (example_env (\<lambda>p. True) [] failing_inst (PyClass ''VariablesCV'' [BaseCV_class, YamlCheck_class]))
      ''/d'' None [(''vars.tsv'', PyClass ''VariablesCV'' [BaseCV_class, YamlCheck_class], [''y''])] io0
     = (io0\<lparr> stderr := [''WARNING: Failed to parse '' @ quote @ ''/d/vars.tsv'' @ quote @ '': bad header''] \<rparr>, Inr [])
   \<and> load_cvs (example_env (\<lambda>p. True) [] failing_inst (PyClass ''VariablesCV'' [BaseCV_class, YamlCheck_class]))
      ''/d'' None [(''plat.tsv'', PyClass ''PlatformsCV'' [BaseCV_class], [''z''])] io0
     = (io0, Inl (IOError ''denied''))
   \<and> \<not> is_parse_error (IOError ''denied'')"
proof -
  let ?E = "example_env (\<lambda>p. True) [] failing_inst (PyClass ''VariablesCV'' [BaseCV_class, YamlCheck_class])"
  have j: "os_path_join ''/d'' ''dims.tsv'' = ''/d/dims.tsv''"
    "os_path_join ''/d'' ''vars.tsv'' = ''/d/vars.tsv''"
    "os_path_join ''/d'' ''plat.tsv'' = ''/d/plat.tsv''"
    by (simp_all add: os_path_join_def)
  have a: "load_cvs ?E ''/d'' None
      [(''dims.tsv'', PyClass ''DimensionsCV'' [BaseCV_class, YamlCheck_class], [''x''])] io0
     = (io0, Inr [])"
    using C5_parse_errors_stay_in_loop [of None "''dims.tsv''"
        "PyClass ''DimensionsCV'' [BaseCV_class, YamlCheck_class]" "[''x'']" ?E "''/d''"
        "''no rows''" "[]" io0]
    by (simp add: passes_filter_def ex_env_simps failing_inst_def j)
  have b: "load_cvs ?E ''/d'' None
      [(''vars.tsv'', PyClass ''VariablesCV'' [BaseCV_class, YamlCheck_class], [''y''])] io0
     = (io0\<lparr> stderr := [''WARNING: Failed to parse '' @ quote @ ''/d/vars.tsv'' @ quote @ '': bad header''] \<rparr>, Inr [])"
    using C5_parse_errors_stay_in_loop [of None "''vars.tsv''"
        "PyClass ''VariablesCV'' [BaseCV_class, YamlCheck_class]" "[''y'']" ?E "''/d''"
        "''bad header''" "[]" io0]
    by (simp add: passes_filter_def ex_env_simps failing_inst_def j print_err_def io0_def)
  have c: "load_cvs ?E ''/d'' None
      [(''plat.tsv'', PyClass ''PlatformsCV'' [BaseCV_class], [''z''])] io0
     = (io0, Inl (IOError ''denied''))"
    by (simp add: ex_env_simps failing_inst_def j isfile_def)
  from c have d: "\<not> is_parse_error (IOError ''denied'')"
    using C5_parse_errors_stay_in_loop [of None "[]" BaseCV_class "[]" ?E "''/d''" "[]" "[]" io0
        "[(''plat.tsv'', PyClass ''PlatformsCV'' [BaseCV_class], [''z''])]" io0 "IOError ''denied''"]
    by blast
  from a b c d show ?thesis by blast
qed

lemma get_all_cvs_Inr:
  assumes "get_all_cvs env root bc w = (w', Inr cvs)"
  shows "cvs = concat (map (yielded env root)
                  (filter (passes_filter bc) (cv_parse_infos env root w)))"
proof -
  obtain w1 pp where pp: "get_per_product_parse_info env root w = (w1, Inr pp)"
    using get_per_product_parse_info_Inr [of env root w] by blast
  with assms have "\<exists>w2. load_cvs env root bc
      (static_parse_infos env @ get_common_var_dim_parse_info env root @ pp) w2 = (w', Inr cvs)"
    by (auto simp: get_all_cvs_def Let_def)
  then obtain w2 where l: "load_cvs env root bc
      (static_parse_infos env @ get_common_var_dim_parse_info env root @ pp) w2 = (w', Inr cvs)"
    by blast
  have "cvs = concat (map (yielded env root) (filter (passes_filter bc)
      (static_parse_infos env @ get_common_var_dim_parse_info env root @ pp)))"
    using load_cvs_Inr [OF l] .
  with pp show ?thesis by (simp add: cv_parse_infos_def)
qed




lemma lower_modes:
  "str_lower (mode_value LAND) = ''land''"
  "str_lower (mode_value SEA) = ''sea''"
  "str_lower (mode_value AIR) = ''air''"
  by code_simp+

lemma spreadsheet_names:
  "spreadsheet_name ''products_dir'' = ''Product Definition Spreadsheets''"
  "spreadsheet_name ''common_spreadsheet'' = ''Common.xlsx''"
  "spreadsheet_name ''vocabs_spreadsheet'' = ''Vocabularies.xlsx''"
  "spreadsheet_name ''global_attrs_worksheet'' = ''Global Attributes.tsv''"
  "spreadsheet_name ''instruments_worksheet'' = ''Instrument Name & Descriptors.tsv''"
  "spreadsheet_name ''data_products_worksheet'' = ''Data Products.tsv''"
  "spreadsheet_name ''platforms_worksheet'' = ''Platforms.tsv''"
  "spreadsheet_name ''scientists_worksheet'' = ''Creators.tsv''"
  by (simp_all add: spreadsheet_name_def SPREADSHEET_NAMES_def)

lemma static_infos:
  "static_parse_infos env =
    [(''Vocabularies.xlsx/Instrument Name & Descriptors.tsv'', InstrumentsCV env, [''instrument'']),
     (''Vocabularies.xlsx/Data Products.tsv'', ProductsCV env, [''product'']),
     (''Vocabularies.xlsx/Platforms.tsv'', PlatformsCV env, [''platform'']),
     (''Vocabularies.xlsx/Creators.tsv'', ScientistsCV env, [''scientist''])]"
  by (simp add: static_parse_infos_def static_path_def spreadsheet_names os_path_join_def)

lemma common_infos:
  "get_common_var_dim_parse_info env root =
    [(os_path_join (os_path_join root ''Common.xlsx'') ''Variables - Land.tsv'', VariablesCV env,
        [''product'', ''common'', ''variable'', ''land'']),
     (os_path_join (os_path_join root ''Common.xlsx'') ''Variables - Sea.tsv'', VariablesCV env,
        [''product'', ''common'', ''variable'', ''sea'']),
     (os_path_join (os_path_join root ''Common.xlsx'') ''Variables - Air.tsv'', VariablesCV env,
        [''product'', ''common'', ''variable'', ''air'']),
     (os_path_join (os_path_join root ''Common.xlsx'') ''Dimensions - Land.tsv'', DimensionsCV env,
        [''product'', ''common'', ''dimension'', ''land'']),
     (os_path_join (os_path_join root ''Common.xlsx'') ''Dimensions - Sea.tsv'', DimensionsCV env,
        [''product'', ''common'', ''dimension'', ''sea'']),
     (os_path_join (os_path_join root ''Common.xlsx'') ''Dimensions - Air.tsv'', DimensionsCV env,
        [''product'', ''common'', ''dimension'', ''air''])]"
  using lower_modes
  by (simp add: get_common_var_dim_parse_info_def VAR_DIM_FILENAME_MAPPING_def all_modes_def
        spreadsheet_names Let_def)









lemma write_loop_step_ok:
  "write_failure env callback output_dir ext f = None \<Longrightarrow>
   write_loop env callback output_dir ext (f # rest) n w
     = write_loop env callback output_dir ext rest (Suc n)
         (w\<lparr> written := written w @ [(outpath_of output_dir ext f, rendered callback f)] \<rparr>)"
  by (auto simp: write_failure_def outpath_of_def rendered_def Let_def
            split: option.splits sum.splits)

lemma write_loop_step_fail:
  "write_failure env callback output_dir ext f = Some e \<Longrightarrow>
   write_loop env callback output_dir ext (f # rest) n w = (w, Inl e)"
  by (auto simp: write_failure_def outpath_of_def Let_def split: option.splits sum.splits)

lemma write_loop_ok:
  "\<forall>f\<in>set files. write_failure env callback output_dir ext f = None \<Longrightarrow>
   write_loop env callback output_dir ext files n w
     = (w\<lparr> written := written w
              @ map (\<lambda>f. (outpath_of output_dir ext f, rendered callback f)) files \<rparr>,
        Inr (n + length files))"
proof (induction files arbitrary: n w)
  case Nil
  then show ?case by simp
next
  case (Cons f rest)
  then have "write_failure env callback output_dir ext f = None" by simp
  then have "write_loop env callback output_dir ext (f # rest) n w
     = write_loop env callback output_dir ext rest (Suc n)
         (w\<lparr> written := written w @ [(outpath_of output_dir ext f, rendered callback f)] \<rparr>)"
    by (rule write_loop_step_ok)
  moreover from Cons.prems have "\<forall>g\<in>set rest. write_failure env callback output_dir ext g = None"
    by simp
  ultimately show ?case using Cons.IH by (simp del: write_loop.simps)
qed

lemma write_loop_fail:
  "\<forall>f\<in>set pre. write_failure env callback output_dir ext f = None \<Longrightarrow>
   write_failure env callback output_dir ext f = Some e \<Longrightarrow>
   write_loop env callback output_dir ext (pre @ f # post) n w
     = (w\<lparr> written := written w
              @ map (\<lambda>f. (outpath_of output_dir ext f, rendered callback f)) pre \<rparr>,
        Inl e)"
proof (induction pre arbitrary: n w)
  case Nil
  then have "write_loop env callback output_dir ext (f # post) n w = (w, Inl e)"
    using write_loop_step_fail by blast
  then show ?case by (simp del: write_loop.simps)
next
  case (Cons g rest)
  then have "write_failure env callback output_dir ext g = None" by simp
  then have "write_loop env callback output_dir ext ((g # rest) @ f # post) n w
     = write_loop env callback output_dir ext (rest @ f # post) (Suc n)
         (w\<lparr> written := written w @ [(outpath_of output_dir ext g, rendered callback g)] \<rparr>)"
    using write_loop_step_ok [of env callback output_dir ext g "rest @ f # post" n w]
    by (simp del: write_loop.simps)
  moreover from Cons.prems have "\<forall>g\<in>set rest. write_failure env callback output_dir ext g = None"
    by simp
  ultimately show ?case using Cons.IH Cons.prems(2) by (simp del: write_loop.simps)
qed

text \<open>
  Claim C8: when no record fails, the bulk writer writes one file per record, in
  order, each at the output directory joined with the record's filename and holding
  what the render function returned, and then prints the number of records; when a
  record fails (opening, rendering or writing raises), the exception leaves the writer,
  the records before it have been written, the failing one and those after it have
  not, and no count is printed.
\<close>

theorem C8_bulk_writer:
  "((\<forall>f\<in>set files. write_failure env callback output_dir ext f = None) \<longrightarrow>
      write_output_files env files callback output_dir ext w
        = (print_out (str_of_nat (length files) @ '' files written'')
             (w\<lparr> written := written w
                  @ map (\<lambda>f. (outpath_of output_dir ext f, rendered callback f)) files \<rparr>),
           None))
   \<and> ((\<forall>f\<in>set pre. write_failure env callback output_dir ext f = None)
        \<and> write_failure env callback output_dir ext g = Some e \<longrightarrow>
      write_output_files env (pre @ g # post) callback output_dir ext w
        = (w\<lparr> written := written w
                  @ map (\<lambda>f. (outpath_of output_dir ext f, rendered callback f)) pre \<rparr>,
           Some e))"
  by (simp add: write_output_files_def write_loop_ok write_loop_fail)

lemma count_two: "str_of_nat (Suc (Suc 0)) = ''2''"
  by code_simp

theorem C8_bulk_writer_witness:
  "write_output_files readme_env [FileInfoCheck [''file_info''], FileStructureCheck [''file_structure'']]
      (\<lambda>f. Inr ''checks'') ''/out'' ''yml'' io0
     = (\<lparr> stdout = [''2 files written''], stderr = [],
          written = [(''/out/AMF_file_info.yml'', ''checks''),
                     (''/out/AMF_file_structure.yml'', ''checks'')] \<rparr>, None)
   \<and> write_output_files readonly_env
      [FileInfoCheck [''file_info''], FileStructureCheck [''file_structure''],
       GlobalAttrCheck [''global_attrs''] ''attrs'']
      (\<lambda>f. Inr ''checks'') ''/out'' ''yml'' io0
     = (\<lparr> stdout = [], stderr = [],
          written = [(''/out/AMF_file_info.yml'', ''checks'')] \<rparr>, Some (IOError ''denied''))"
proof -
  have p: "outpath_of ''/out'' ''yml'' (FileInfoCheck [''file_info'']) = ''/out/AMF_file_info.yml''"
    "outpath_of ''/out'' ''yml'' (FileStructureCheck [''file_structure''])
       = ''/out/AMF_file_structure.yml''"
    by (simp_all add: outpath_of_def os_path_join_def get_filename_def amf_file_def
          new_AmfFile_def facet_separator_def)
  have a: "\<forall>f\<in>set [FileInfoCheck [''file_info''], FileStructureCheck [''file_structure'']].
      write_failure readme_env (\<lambda>f. Inr ''checks'') ''/out'' ''yml'' f = None"
    by (simp add: write_failure_def readme_env_def example_env_def)
  have b: "(\<forall>f\<in>set [FileInfoCheck [''file_info'']].
      write_failure readonly_env (\<lambda>f. Inr ''checks'') ''/out'' ''yml'' f = None)
      \<and> write_failure readonly_env (\<lambda>f. Inr ''checks'') ''/out'' ''yml''
           (FileStructureCheck [''file_structure'']) = Some (IOError ''denied'')"
    by (simp add: write_failure_def readonly_env_def example_env_def p)
  have one: "write_output_files readme_env
      [FileInfoCheck [''file_info''], FileStructureCheck [''file_structure'']]
      (\<lambda>f. Inr ''checks'') ''/out'' ''yml'' io0
     = (\<lparr> stdout = [''2 files written''], stderr = [],
          written = [(''/out/AMF_file_info.yml'', ''checks''),
                     (''/out/AMF_file_structure.yml'', ''checks'')] \<rparr>, None)"
    using a C8_bulk_writer [of "[FileInfoCheck [''file_info''], FileStructureCheck [''file_structure'']]"
        readme_env "\<lambda>f. Inr ''checks''" "''/out''" "''yml''" io0]
    by (simp add: p rendered_def print_out_def io0_def count_two)
  have two: "write_output_files readonly_env
      ([FileInfoCheck [''file_info'']] @ FileStructureCheck [''file_structure'']
         # [GlobalAttrCheck [''global_attrs''] ''attrs''])
      (\<lambda>f. Inr ''checks'') ''/out'' ''yml'' io0
     = (\<lparr> stdout = [], stderr = [],
          written = [(''/out/AMF_file_info.yml'', ''checks'')] \<rparr>, Some (IOError ''denied''))"
    using b C8_bulk_writer [of "[]" readonly_env "\<lambda>f. Inr ''checks''" "''/out''" "''yml''" io0
        "[FileInfoCheck [''file_info'']]" "FileStructureCheck [''file_structure'']"
        "IOError ''denied''" "[GlobalAttrCheck [''global_attrs''] ''attrs'']"]
    by (simp add: p rendered_def io0_def)
  from one two show ?thesis by simp
qed

text \<open>
  Claim C9 fails for the warning of the directory scan: the scan of a tree that holds
  the one file \<^verbatim>\<open>README.txt\<close> under the products directory prints its warning on
  the standard output and nothing on the error stream.
\<close>

theorem C9_scan_warning_on_stdout:
  "get_per_product_parse_info readme_env ''/d'' io0
     = (\<lparr> stdout = [''WARNING: No match for '' @ quote
                        @ ''/d/Product Definition Spreadsheets/README.txt'' @ quote],
          stderr = [], written = [] \<rparr>, Inr [])"
proof -
  have "sheet_regex_search ''/d/Product Definition Spreadsheets/README.txt'' = None"
    by (simp add: match_at_def is_name_char_def)
  then show ?thesis
    by (simp add: get_per_product_parse_info_def readme_env_def ex_env_simps spreadsheet_names
          os_path_join_def print_out_def io0_def)
qed

lemma str_strip_split:
  "\<exists>a b. s = a @ str_strip s @ b \<and> (\<forall>c\<in>set a. is_space c) \<and> (\<forall>c\<in>set b. is_space c)"
proof -
  let ?t = "dropWhile is_space s"
  have s: "s = takeWhile is_space s @ ?t" by simp
  have "rev (takeWhile is_space (rev ?t) @ dropWhile is_space (rev ?t)) = rev (rev ?t)"
    by (simp only: takeWhile_dropWhile_id)
  then have "rev (dropWhile is_space (rev ?t)) @ rev (takeWhile is_space (rev ?t)) = ?t"
    by (simp only: rev_append rev_rev_ident)
  then have t: "?t = str_strip s @ rev (takeWhile is_space (rev ?t))"
    by (simp only: str_strip_def)
  have a: "\<forall>c\<in>set (takeWhile is_space s). is_space c"
    by (auto dest: set_takeWhileD)
  have b: "\<forall>c\<in>set (rev (takeWhile is_space (rev ?t))). is_space c"
    by (auto dest: set_takeWhileD)
  from s t have "s = takeWhile is_space s @ str_strip s @ rev (takeWhile is_space (rev ?t))"
    by metis
  with a b show ?thesis by blast
qed

lemma dropWhile_last: "dropWhile P xs \<noteq> [] \<Longrightarrow> last (dropWhile P xs) = last xs"
  by (induction xs) (auto split: if_splits)

lemma trimmed_str_strip: "trimmed (str_strip s)"
proof (cases "str_strip s = []")
  case True
  then show ?thesis by (simp add: trimmed_def)
next
  case False
  let ?t = "dropWhile is_space s"
  let ?u = "dropWhile is_space (rev ?t)"
  from False have u: "?u \<noteq> []" by (simp add: str_strip_def)
  then have t: "?t \<noteq> []" by (cases "?t = []") simp_all
  have "last (str_strip s) = hd ?u" using u by (simp add: str_strip_def last_rev)
  moreover have "\<not> is_space (hd ?u)" using u by (rule hd_dropWhile)
  moreover have "hd (str_strip s) = last ?u" using u by (simp add: str_strip_def hd_rev)
  moreover have "last ?u = last (rev ?t)" using u by (rule dropWhile_last)
  moreover have "last (rev ?t) = hd ?t" using t by (simp add: last_rev)
  moreover have "\<not> is_space (hd ?t)" using t by (rule hd_dropWhile)
  ultimately show ?thesis by (simp add: trimmed_def)
qed

lemma strip_item_Inr:
  "strip_item item = Inr (k, v) \<Longrightarrow>
   \<exists>k0 v0. item = (Some k0, v0) \<and> k = str_strip k0 \<and> v = stripped_cell v0
      \<and> (\<forall>cells. v0 \<noteq> Surplus cells)"
  by (cases item rule: strip_item.cases) auto

lemma strip_item_total:
  "strip_item (Some k0, v0) = (case v0 of Surplus cells \<Rightarrow> Inl (AttributeError ''strip'')
                                | _ \<Rightarrow> Inr (str_strip k0, stripped_cell v0))"
  by (cases v0) auto

lemma strip_items_Inr:
  "strip_items row d0 = Inr d \<Longrightarrow>
   dom d = dom d0 \<union> {str_strip k0 | k0. \<exists>v0. (Some k0, v0) \<in> set row}
   \<and> (\<forall>k v. d k = Some v \<longrightarrow>
         d0 k = Some v \<or> (\<exists>k0 v0. (Some k0, v0) \<in> set row \<and> k = str_strip k0 \<and> v = stripped_cell v0))
   \<and> (\<forall>item\<in>set row. \<exists>k0 v0. item = (Some k0, v0) \<and> (\<forall>cells. v0 \<noteq> Surplus cells))"
proof (induction row arbitrary: d0)
  case Nil
  then show ?case by simp
next
  case (Cons item rest)
  from Cons.prems obtain k v where kv: "strip_item item = Inr (k, v)"
    and r: "strip_items rest (d0(k \<mapsto> v)) = Inr d"
    by (auto split: sum.splits)
  from kv obtain k0 v0 where i: "item = (Some k0, v0)" "k = str_strip k0" "v = stripped_cell v0"
      "\<forall>cells. v0 \<noteq> Surplus cells"
    using strip_item_Inr by blast
  note ih = Cons.IH [OF r]
  have s1: "{str_strip k1 | k1. \<exists>v1. (Some k1, v1) \<in> set (item # rest)}
      = insert k {str_strip k1 | k1. \<exists>v1. (Some k1, v1) \<in> set rest}"
    using i by auto
  have s2: "dom (d0(k \<mapsto> v)) = insert k (dom d0)" by simp
  from ih have "dom d = dom (d0(k \<mapsto> v)) \<union> {str_strip k1 | k1. \<exists>v1. (Some k1, v1) \<in> set rest}"
    by blast
  then have 1: "dom d = dom d0 \<union> {str_strip k0 | k0. \<exists>v0. (Some k0, v0) \<in> set (item # rest)}"
    unfolding s1 s2 by blast
  have 2: "\<forall>k' v'. d k' = Some v' \<longrightarrow>
         d0 k' = Some v' \<or> (\<exists>k0 v0. (Some k0, v0) \<in> set (item # rest) \<and> k' = str_strip k0
              \<and> v' = stripped_cell v0)"
  proof (intro allI impI)
    fix k' v' assume "d k' = Some v'"
    with ih have "(d0(k \<mapsto> v)) k' = Some v' \<or> (\<exists>k0 v0. (Some k0, v0) \<in> set rest
        \<and> k' = str_strip k0 \<and> v' = stripped_cell v0)"
      by blast
    then show "d0 k' = Some v' \<or> (\<exists>k0 v0. (Some k0, v0) \<in> set (item # rest) \<and> k' = str_strip k0
              \<and> v' = stripped_cell v0)"
      using i by (cases "k' = k") auto
  qed
  have 3: "\<forall>it\<in>set (item # rest). \<exists>k0 v0. it = (Some k0, v0) \<and> (\<forall>cells. v0 \<noteq> Surplus cells)"
    using ih i by auto
  from 1 2 3 show ?case by blast
qed

lemma strip_items_total:
  "\<forall>item\<in>set row. \<exists>k0 v0. item = (Some k0, v0) \<and> (\<forall>cells. v0 \<noteq> Surplus cells) \<Longrightarrow>
   \<exists>d. strip_items row d0 = Inr d"
proof (induction row arbitrary: d0)
  case Nil
  then show ?case by simp
next
  case (Cons item rest)
  then obtain k0 v0 where i: "item = (Some k0, v0)" "\<forall>cells. v0 \<noteq> Surplus cells" by auto
  then have "strip_item item = Inr (str_strip k0, stripped_cell v0)"
    by (cases v0) auto
  moreover from Cons have "\<exists>d. strip_items rest (d0(str_strip k0 \<mapsto> stripped_cell v0)) = Inr d"
    by simp
  ultimately show ?case by simp
qed

lemma stripped_cell_trimmed: "stripped_cell v0 = Some v \<Longrightarrow> trimmed v"
  by (cases v0) (auto simp: trimmed_str_strip)

text \<open>
  Claim C7: the row that \<^verbatim>\<open>StripWhitespaceReader.next\<close> delivers has, for every
  header key of the row read, that key with its leading and trailing whitespace
  removed, and nothing else; under a key it holds the cell of a raw key that strips to
  it, stripped when it is a string and \<^verbatim>\<open>None\<close> when it is \<^verbatim>\<open>None\<close>.  So every
  key and every string cell of the delivered row is free of leading and trailing
  whitespace, where the stripped string is the original without a whitespace prefix
  and a whitespace suffix.  A row is delivered whenever the line has no more cells
  than the header.
\<close>

theorem C7_rows_are_stripped:
  "(StripWhitespaceReader_next (Inr row) = Inr d \<longrightarrow>
      dom d = {str_strip k0 | k0. \<exists>v0. (Some k0, v0) \<in> set row}
      \<and> (\<forall>k v. d k = Some v \<longrightarrow>
            (\<exists>k0 v0. (Some k0, v0) \<in> set row \<and> k = str_strip k0 \<and> v = stripped_cell v0))
      \<and> (\<forall>k\<in>dom d. trimmed k)
      \<and> (\<forall>k v. d k = Some (Some v) \<longrightarrow> trimmed v))
   \<and> ((\<forall>item\<in>set row. \<exists>k0 v0. item = (Some k0, v0) \<and> (\<forall>cells. v0 \<noteq> Surplus cells))
        \<longrightarrow> (\<exists>d. StripWhitespaceReader_next (Inr row) = Inr d))
   \<and> trimmed (str_strip s)
   \<and> (\<exists>a b. s = a @ str_strip s @ b \<and> (\<forall>c\<in>set a. is_space c) \<and> (\<forall>c\<in>set b. is_space c))"
proof (intro conjI impI)
  assume "StripWhitespaceReader_next (Inr row) = Inr d"
  then have "strip_items row Map.empty = Inr d" by (simp add: StripWhitespaceReader_next_def)
  note f = strip_items_Inr [OF this]
  from f show dm: "dom d = {str_strip k0 | k0. \<exists>v0. (Some k0, v0) \<in> set row}" by simp
  from f show vals: "\<forall>k v. d k = Some v \<longrightarrow>
            (\<exists>k0 v0. (Some k0, v0) \<in> set row \<and> k = str_strip k0 \<and> v = stripped_cell v0)"
    by simp
  from dm show "\<forall>k\<in>dom d. trimmed k" by (auto simp: trimmed_str_strip)
  show "\<forall>k v. d k = Some (Some v) \<longrightarrow> trimmed v"
  proof (intro allI impI)
    fix k v assume "d k = Some (Some v)"
    with vals obtain v0 where "Some v = stripped_cell v0" by blast
    then show "trimmed v" using stripped_cell_trimmed [of v0 v] by simp
  qed
next
  assume "\<forall>item\<in>set row. \<exists>k0 v0. item = (Some k0, v0) \<and> (\<forall>cells. v0 \<noteq> Surplus cells)"
  then show "\<exists>d. StripWhitespaceReader_next (Inr row) = Inr d"
    using strip_items_total [of row Map.empty] by (simp add: StripWhitespaceReader_next_def)
next
  show "trimmed (str_strip s)" by (rule trimmed_str_strip)
next
  show "\<exists>a b. s = a @ str_strip s @ b \<and> (\<forall>c\<in>set a. is_space c) \<and> (\<forall>c\<in>set b. is_space c)"
    by (rule str_strip_split)
qed

lemma strip_examples:
  "str_strip '' name '' = ''name''"
  "str_strip '' refl  '' = ''refl''"
  "str_strip ''units'' = ''units''"
  by (simp_all add: str_strip_def is_space_def)

theorem C7_rows_are_stripped_witness:
  "StripWhitespaceReader_next (Inr [(Some '' name '', Str '' refl  ''), (Some ''units'', NoneCell)])
     = Inr [''name'' \<mapsto> Some ''refl'', ''units'' \<mapsto> None]
   \<and> trimmed ''name'' \<and> trimmed ''refl'' \<and> trimmed ''units''"
proof -
  let ?row = "[(Some '' name '', Str '' refl  ''), (Some ''units'', NoneCell)]"
  let ?d = "[''name'' \<mapsto> Some ''refl'', ''units'' \<mapsto> None]"
  have ok: "\<forall>item\<in>set ?row. \<exists>k0 v0. item = (Some k0, v0) \<and> (\<forall>cells. v0 \<noteq> Surplus cells)"
    by simp
  have ev: "StripWhitespaceReader_next (Inr ?row) = Inr ?d"
    by (simp add: StripWhitespaceReader_next_def strip_examples)
  have d1: "?d ''name'' = Some (Some ''refl'')" by simp
  have dm: "''name'' \<in> dom ?d" "''units'' \<in> dom ?d" by simp_all
  from ev ok d1 dm have "trimmed ''name'' \<and> trimmed ''refl'' \<and> trimmed ''units''"
    using C7_rows_are_stripped [of ?row ?d "''x''"] by blast
  with ev show ?thesis by blast
qed















lemma lower_tokens:
  "str_lower ''Land'' = ''land''"
  "str_lower ''Sea'' = ''sea''"
  "str_lower ''Air'' = ''air''"
  by code_simp+

lemma mode_tokens_inj:
  "str_lower (mode_value m) = str_lower (mode_value m') \<Longrightarrow> m = m'"
  by (cases m; cases m') (simp_all add: lower_tokens)



















lemma load_warnings:
  "is_load_warning (missing_file_warning path)"
  "is_load_warning (parse_warning path msg)"
  "\<not> is_load_warning (no_products_warning root)"
  by (simp_all add: is_load_warning_def missing_file_warning_def parse_warning_def
        no_products_warning_def)

lemma load_cvs_step_io:
  "fst (load_cvs env root bc ((p, c, fs) # rest) w) = w
   \<or> fst (load_cvs env root bc ((p, c, fs) # rest) w) = fst (load_cvs env root bc rest w)
   \<or> fst (load_cvs env root bc ((p, c, fs) # rest) w)
       = fst (load_cvs env root bc rest (print_err (missing_file_warning (os_path_join root p)) w))
   \<or> (\<exists>m. fst (load_cvs env root bc ((p, c, fs) # rest) w)
       = fst (load_cvs env root bc rest (print_err (parse_warning (os_path_join root p) m) w)))"
proof (cases "case bc of None \<Rightarrow> False | Some b \<Rightarrow> b \<notin> set (cls_bases c)")
  case True
  then show ?thesis by simp
next
  case nf: False
  show ?thesis
  proof (cases "os_path_isfile env (os_path_join root p)")
    case False
    with nf show ?thesis by (simp add: isfile_def missing_file_warning_def)
  next
    case True
    show ?thesis
    proof (cases "instantiate env c (os_path_join root p)")
      case (Inr d)
      with nf True show ?thesis by (simp add: isfile_def split: prod.splits sum.splits)
    next
      case (Inl e)
      with nf True show ?thesis
        by (cases e) (auto simp: isfile_def parse_warning_def)
    qed
  qed
qed

lemma load_cvs_io:
  "\<exists>ms. fst (load_cvs env root bc infos w) = w\<lparr> stderr := stderr w @ ms \<rparr>
        \<and> (\<forall>m\<in>set ms. is_load_warning m)"
proof (induction infos arbitrary: w)
  case Nil
  show ?case by (rule exI [of _ "[]"]) simp
next
  case (Cons info rest)
  obtain p c fs where info: "info = (p, c, fs)" by (cases info) auto
  have ih: "\<exists>ms. fst (load_cvs env root bc rest v) = v\<lparr> stderr := stderr v @ ms \<rparr>
        \<and> (\<forall>m\<in>set ms. is_load_warning m)" for v
    using Cons.IH by blast
  have pr: "\<exists>ms. fst (load_cvs env root bc rest (print_err x w)) = w\<lparr> stderr := stderr w @ ms \<rparr>
        \<and> (\<forall>m\<in>set ms. is_load_warning m)" if "is_load_warning x" for x
  proof -
    from ih [of "print_err x w"] obtain ms where
      "fst (load_cvs env root bc rest (print_err x w))
         = (print_err x w)\<lparr> stderr := stderr (print_err x w) @ ms \<rparr>"
      "\<forall>m\<in>set ms. is_load_warning m"
      by blast
    then have "fst (load_cvs env root bc rest (print_err x w)) = w\<lparr> stderr := stderr w @ (x # ms) \<rparr>"
      "\<forall>m\<in>set (x # ms). is_load_warning m"
      using that by (simp_all add: print_err_def)
    then show ?thesis by blast
  qed
  have nil: "\<exists>ms. w = w\<lparr> stderr := stderr w @ ms \<rparr> \<and> (\<forall>m\<in>set ms. is_load_warning m)"
    by (rule exI [of _ "[]"]) simp
  from load_cvs_step_io [of env root bc p c fs rest w]
  consider (stop) "fst (load_cvs env root bc (info # rest) w) = w"
    | (skip) "fst (load_cvs env root bc (info # rest) w) = fst (load_cvs env root bc rest w)"
    | (missing) "fst (load_cvs env root bc (info # rest) w)
       = fst (load_cvs env root bc rest (print_err (missing_file_warning (os_path_join root p)) w))"
    | (failed) m where "fst (load_cvs env root bc (info # rest) w)
       = fst (load_cvs env root bc rest (print_err (parse_warning (os_path_join root p) m) w))"
    unfolding info by blast
  then show ?case
  proof cases
    case stop
    with nil show ?thesis by simp
  next
    case skip
    with ih [of w] show ?thesis by simp
  next
    case missing
    with pr [OF load_warnings(1)] show ?thesis by simp
  next
    case failed
    with pr [OF load_warnings(2)] show ?thesis by simp
  qed
qed

lemma load_cvs_written: "written (fst (load_cvs env root bc infos w)) = written w"
  using load_cvs_io [of env root bc infos w] by auto

















lemma name_char_no_sep: "is_name_char c \<Longrightarrow> c \<noteq> CHR ''_''"
  by (auto simp: is_name_char_def)

lemma filename_tokens_eq:
  "get_filename (amf_file a) ext = get_filename (amf_file b) ext \<Longrightarrow>
   filename_tokens a = filename_tokens b"
  by (simp add: get_filename_def filename_tokens_def)

lemma distinct_map_comp: "distinct (map (\<lambda>x. g (f x)) xs) \<Longrightarrow> distinct (map f xs)"
  by (induction xs) auto

lemma tokens_of_clean:
  assumes "facets_of c \<noteq> []" "\<forall>t\<in>set (facets_of c). CHR ''_'' \<notin> set t"
  shows "filename_tokens c = facets_of c"
proof -
  have "filename_tokens c = split_at (CHR ''_'') (str_join [CHR ''_''] (facets_of c))"
    by (simp add: filename_tokens_def amf_file_def new_AmfFile_def facet_separator_def)
  also have "\<dots> = facets_of c" using assms by (rule split_at_str_join)
  finally show ?thesis .
qed

lemma static_facets_clean:
  "static_facets fs \<Longrightarrow> fs \<noteq> [] \<and> (\<forall>t\<in>set fs. CHR ''_'' \<notin> set t)"
  unfolding static_facets_def by (elim disjE) simp_all

lemma common_facets_clean:
  "common_facets fs \<Longrightarrow> fs \<noteq> [] \<and> (\<forall>t\<in>set fs. CHR ''_'' \<notin> set t)"
  unfolding common_facets_def by (elim exE conjE disjE) simp_all

lemma scan_facets_clean:
  assumes "scan_facets fs"
  shows "fs \<noteq> [] \<and> (\<forall>t\<in>set fs. CHR ''_'' \<notin> set t)"
proof -
  from assms obtain n k where f: "fs = [''product'', n, k]" "\<forall>c\<in>set n. is_name_char c"
      "k = ''variable'' \<or> k = ''dimension''"
    unfolding scan_facets_def by blast
  from f(2) have "CHR ''_'' \<notin> set n" using name_char_no_sep by blast
  moreover from f(3) have "CHR ''_'' \<notin> set k" by (elim disjE) simp_all
  ultimately show ?thesis using f(1) by simp
qed

lemma cv_facets_clean:
  "cv_facets_ok fs \<Longrightarrow> fs \<noteq> [] \<and> (\<forall>t\<in>set fs. CHR ''_'' \<notin> set t)"
  unfolding cv_facets_ok_def
  using static_facets_clean common_facets_clean scan_facets_clean by blast

lemma cv_facets_hd:
  "cv_facets_ok fs \<Longrightarrow>
   hd fs = ''instrument'' \<or> hd fs = ''product'' \<or> hd fs = ''platform'' \<or> hd fs = ''scientist''"
  unfolding cv_facets_ok_def static_facets_def common_facets_def scan_facets_def
  by (elim disjE exE conjE) simp_all

lemma cv_facets_not_global:
  assumes "cv_facets_ok fs"
  shows "fs \<noteq> [''file'', ''info''] \<and> fs \<noteq> [''file'', ''structure'']
         \<and> fs \<noteq> [''global'', ''attrs'']"
proof -
  have "hd fs \<noteq> ''file'' \<and> hd fs \<noteq> ''global''"
    using cv_facets_hd [OF assms] by (elim disjE) simp_all
  then show ?thesis by auto
qed

lemma mode_token_cases:
  "str_lower (mode_value m) = ''land'' \<or> str_lower (mode_value m) = ''sea''
   \<or> str_lower (mode_value m) = ''air''"
  by (cases m) (simp_all add: lower_tokens)

lemma cv_facets_third:
  "cv_facets_ok fs \<Longrightarrow> length fs = 3 \<Longrightarrow> fs ! 2 = ''variable'' \<or> fs ! 2 = ''dimension''"
  unfolding cv_facets_ok_def static_facets_def common_facets_def scan_facets_def
  by (elim disjE exE conjE) simp_all

lemma cv_facets_not_wrapper:
  assumes "cv_facets_ok fs"
  shows "fs \<noteq> [''product'', p, str_lower (mode_value m)]"
proof
  assume e: "fs = [''product'', p, str_lower (mode_value m)]"
  then have "length fs = 3" "fs ! 2 = str_lower (mode_value m)" by simp_all
  with cv_facets_third [OF assms] have "str_lower (mode_value m) = ''variable''
      \<or> str_lower (mode_value m) = ''dimension''"
    by simp
  with mode_token_cases [of m] show False by (elim disjE) simp_all
qed

lemma infos_facets_ok:
  "\<forall>info\<in>set (cv_parse_infos env root w). cv_facets_ok (snd (snd info))"
proof -
  have s: "\<forall>info\<in>set (static_parse_infos env). static_facets (snd (snd info))"
    by (simp add: static_infos static_facets_def)
  have c: "\<forall>info\<in>set (get_common_var_dim_parse_info env root). common_facets (snd (snd info))"
    by (simp add: common_infos common_facets_def)
  obtain w1 pp where pp: "get_per_product_parse_info env root w = (w1, Inr pp)"
      "\<forall>i\<in>set pp. scan_facets_ok i"
    using get_per_product_parse_info_Inr [of env root w] by blast
  have p: "\<forall>info\<in>set pp. scan_facets (snd (snd info))"
    using pp(2) unfolding scan_facets_ok_def scan_facets_def by blast
  have "set (cv_parse_infos env root w)
      = set (static_parse_infos env) \<union> set (get_common_var_dim_parse_info env root) \<union> set pp"
    using pp(1) by (simp add: cv_parse_infos_def Un_assoc)
  with s c p show ?thesis unfolding cv_facets_ok_def by blast
qed

lemma yielded_facets:
  "map facets_of (yielded env root info) = [] \<or>
   map facets_of (yielded env root info) = [snd (snd info)]"
  by (cases "os_path_isfile env (os_path_join root (fst info))";
      cases "instantiate env (fst (snd info)) (os_path_join root (fst info))")
     (simp_all add: yielded_def)

lemma yielded_all_facets:
  "set (map facets_of (concat (map (yielded env root) infos)))
     \<subseteq> set (map (\<lambda>info. snd (snd info)) infos)"
proof (induction infos)
  case Nil
  then show ?case by simp
next
  case (Cons info rest)
  from yielded_facets [of env root info]
  have "set (map facets_of (yielded env root info)) \<subseteq> {snd (snd info)}" by auto
  with Cons show ?case by auto
qed

lemma yielded_distinct:
  "distinct (map (\<lambda>info. snd (snd info)) infos) \<Longrightarrow>
   distinct (map facets_of (concat (map (yielded env root) infos)))"
proof (induction infos)
  case Nil
  then show ?case by simp
next
  case (Cons info rest)
  then have d: "distinct (map facets_of (concat (map (yielded env root) rest)))"
    and n: "snd (snd info) \<notin> set (map (\<lambda>info. snd (snd info)) rest)"
    by simp_all
  from n yielded_all_facets [of env root rest]
  have n': "snd (snd info) \<notin> set (map facets_of (concat (map (yielded env root) rest)))"
    by blast
  from yielded_facets [of env root info] show ?case
  proof
    assume "map facets_of (yielded env root info) = []"
    with d show ?thesis by simp
  next
    assume "map facets_of (yielded env root info) = [snd (snd info)]"
    with d n' show ?thesis by simp
  qed
qed

lemma scan_facets_length: "scan_facets_ok info \<Longrightarrow> length (snd (snd info)) = 3"
  unfolding scan_facets_ok_def by auto

lemma infos_distinct:
  assumes "get_per_product_parse_info env root w = (w0, Inr pp)"
    and "distinct (map (\<lambda>info. snd (snd info)) pp)"
  shows "distinct (map (\<lambda>info. snd (snd info)) (cv_parse_infos env root w))"
proof -
  let ?S = "map (\<lambda>info. snd (snd info)) (static_parse_infos env)"
  let ?C = "map (\<lambda>info. snd (snd info)) (get_common_var_dim_parse_info env root)"
  let ?P = "map (\<lambda>info. snd (snd info)) pp"
  have S: "?S = [[''instrument''], [''product''], [''platform''], [''scientist'']]"
    by (simp add: static_infos)
  have C: "?C = [[''product'', ''common'', ''variable'', ''land''],
                 [''product'', ''common'', ''variable'', ''sea''],
                 [''product'', ''common'', ''variable'', ''air''],
                 [''product'', ''common'', ''dimension'', ''land''],
                 [''product'', ''common'', ''dimension'', ''sea''],
                 [''product'', ''common'', ''dimension'', ''air'']]"
    by (simp add: common_infos)
  have dS: "distinct ?S" unfolding S by simp
  have dC: "distinct ?C" unfolding C by simp
  have lS: "\<forall>f\<in>set ?S. length f = 1" unfolding S by simp
  have lC: "\<forall>f\<in>set ?C. length f = 4" unfolding C by simp
  have "\<forall>i\<in>set pp. scan_facets_ok i"
    using get_per_product_parse_info_Inr [of env root w] assms(1) by auto
  then have lP: "\<forall>f\<in>set ?P. length f = 3"
    using scan_facets_length by auto
  have SC: "set ?S \<inter> set ?C = {}" using lS lC by fastforce
  have SP: "set ?S \<inter> set ?P = {}" using lS lP by fastforce
  have CP: "set ?C \<inter> set ?P = {}" using lC lP by fastforce
  have "map (\<lambda>info. snd (snd info)) (cv_parse_infos env root w) = ?S @ ?C @ ?P"
    using assms(1) by (simp add: cv_parse_infos_def)
  moreover have "distinct (?S @ ?C @ ?P)"
    using dS dC assms(2) SC SP CP by (simp only: distinct_append set_append) blast
  ultimately show ?thesis by simp
qed

lemma loaded_facets:
  assumes "get_all_cvs env root bc w = (w1, Inr cvs)"
  shows "\<forall>cv\<in>set cvs. cv_facets_ok (facets_of cv)"
proof
  fix cv assume "cv \<in> set cvs"
  then have "facets_of cv \<in> set (map facets_of cvs)" by simp
  also have "\<dots> \<subseteq> set (map (\<lambda>info. snd (snd info))
      (filter (passes_filter bc) (cv_parse_infos env root w)))"
    unfolding get_all_cvs_Inr [OF assms] by (rule yielded_all_facets)
  finally obtain info where "info \<in> set (cv_parse_infos env root w)"
      "facets_of cv = snd (snd info)"
    by auto
  with infos_facets_ok [of env root w] show "cv_facets_ok (facets_of cv)" by simp
qed

lemma loaded_distinct:
  assumes "get_all_cvs env root bc w = (w1, Inr cvs)"
    and "get_per_product_parse_info env root w = (w0, Inr pp)"
    and "distinct (map (\<lambda>info. snd (snd info)) pp)"
  shows "distinct (map facets_of cvs)"
proof -
  have "distinct (map (\<lambda>info. snd (snd info))
      (filter (passes_filter bc) (cv_parse_infos env root w)))"
    using infos_distinct [OF assms(2,3)] by (rule distinct_map_filter)
  then show ?thesis
    unfolding get_all_cvs_Inr [OF assms(1)] by (rule yielded_distinct)
qed

lemma wrapper_facets_eq:
  "map facets_of (concat (map (\<lambda>p. map (wrapper_for g cvs p) all_modes) ps)) = wrapper_facets ps"
  by (induction ps) (simp_all add: wrapper_facets_def all_modes_def wrapper_for_def lower_tokens)

lemma wrapper_facets_mem:
  "f \<in> set (wrapper_facets ps) \<Longrightarrow>
   \<exists>p\<in>set ps. f = [''product'', p, ''land''] \<or> f = [''product'', p, ''sea'']
            \<or> f = [''product'', p, ''air'']"
  by (auto simp: wrapper_facets_def)

lemma wrapper_facets_distinct: "distinct ps \<Longrightarrow> distinct (wrapper_facets ps)"
proof (induction ps)
  case Nil
  then show ?case by (simp add: wrapper_facets_def)
next
  case (Cons p ps)
  have split: "wrapper_facets (p # ps)
      = [[''product'', p, ''land''], [''product'', p, ''sea''], [''product'', p, ''air'']]
        @ wrapper_facets ps"
    by (simp add: wrapper_facets_def)
  have d3: "distinct [[''product'', p, ''land''], [''product'', p, ''sea''], [''product'', p, ''air'']]"
    by simp
  have "\<forall>f\<in>set (wrapper_facets ps). f ! 1 \<in> set ps"
    using wrapper_facets_mem [of _ ps] by fastforce
  with Cons.prems have "\<forall>f\<in>set (wrapper_facets ps). f ! 1 \<noteq> p" by auto
  then have dis: "set [[''product'', p, ''land''], [''product'', p, ''sea''], [''product'', p, ''air'']]
      \<inter> set (wrapper_facets ps) = {}"
    by fastforce
  from Cons have "distinct (wrapper_facets ps)" by simp
  with d3 dis show ?case unfolding split by (simp only: distinct_append)
qed

end
